theory Spec2Isabelle
  imports Main "HOL-Library.Word" "HOL-Library.Char_ord"
begin

section \<open>The counter store of caas (db.go)\<close>

text \<open>
  The file db.go talks to a Cassandra cluster through the gocql driver. The functions of
  db.go are embedded one by one, under their own names. The driver and the cluster are not
  part of the repository: the cluster is an oracle that answers the n-th physical attempt
  with a \<open>response\<close>, and the few driver calls db.go makes (\<open>session.Query\<close>, the three
  setters, \<open>Exec\<close>, \<open>MapScan\<close>, the observer callback) are modelled by their documented
  behaviour, each marked as such.
\<close>

subsection \<open>Go values\<close>

text \<open>
  Errors are values. \<open>Errorf f name err\<close> is \<open>fmt.Errorf(f, name, err)\<close> for the two
  formats of db.go, which print a \<open>%q\<close> string and a \<open>%s\<close> error; the message is kept as
  the call, not rendered. \<open>ErrNotFound\<close> is gocql.ErrNotFound, \<open>ClusterError\<close> any other
  error the driver hands back, with its message.
\<close>

datatype error =
    ErrNotFound
  | ClusterError string
  | Errorf string string error

text \<open>The dynamic values an \<open>interface{}\<close> holds in this program.\<close>

datatype iface =
    GoNil
  | GoInt64 "64 word"
  | GoInt "64 word"
  | GoString string
  | GoBool bool

type_synonym int64 = "64 word"

type_synonym gomap = "string \<rightharpoonup> iface"

text \<open>A Go call either returns or panics.\<close>

datatype 'a outcome = Returns 'a | Panics

subsection \<open>The result model\<close>

text \<open>
  Modelled from the spec: the struct declaration of \<open>QueryStat\<close> is not in db.go, which only
  builds its values. The fields are the ones \<open>ObserveQuery\<close> assigns, with the types of the
  expressions assigned (spec, section 3: statement, attempts, time, host, rows). The node
  address is the field \<open>Host\<close>, written \<open>QS_Host\<close> here because \<open>Counter\<close> has a field of that
  name too.
\<close>

record QueryStat =
  Statement :: string
  Attempts :: int
  Time :: string
  QS_Host :: string
  Rows :: int

text \<open>
  Modelled from the spec: the struct declaration of \<open>Counter\<close> is not in db.go either. The
  fields are the ones \<open>IncrementAndGet\<close> assigns (spec, section 3: name, value, host, stats).
  \<open>DBStats\<close> is a slice: \<open>None\<close> is the nil slice.
\<close>

record Counter =
  Value :: int64
  Name :: string
  Host :: string
  DBStats :: "QueryStat list option"

text \<open>\<open>Counter{}\<close>, the zero value.\<close>

definition Counter_zero :: Counter where
  "Counter_zero = \<lparr>Value = 0, Name = [], Host = [], DBStats = None\<rparr>"

subsection \<open>The observer (db.go, lines 120 to 138)\<close>

record queryLogger =
  stats :: "QueryStat list option"

text \<open>
  gocql.ObservedQuery, the fields \<open>ObserveQuery\<close> reads. Instants are nanoseconds on one
  clock; \<open>OQ_Attempts\<close> is \<open>query.Metrics.Attempts\<close>; \<open>OQ_Host\<close> stands for
  \<open>query.Host.ConnectAddress().String()\<close>, the rendered address of the node. The driver
  observes an attempt on a node it is connected to, so the host is there and has an
  address: a nil host or one without a valid address, on which these two calls would
  panic, is not a value of this record.
\<close>

record ObservedQuery =
  OQ_Statement :: string
  OQ_Attempts :: int
  OQ_Start :: int
  OQ_End :: int
  OQ_Host :: string
  OQ_Rows :: int

text \<open>\<open>End.Sub(Start)\<close>: a \<open>time.Duration\<close>, an int64 of nanoseconds, saturating.\<close>

definition time_Sub :: "int \<Rightarrow> int \<Rightarrow> int" where
  "time_Sub e s = max (- (2 ^ 63)) (min (2 ^ 63 - 1) (e - s))"

text \<open>Go's \<open>append(s, x)\<close> on a slice that may be nil.\<close>

definition append_slice :: "'a list option \<Rightarrow> 'a \<Rightarrow> 'a list option" where
  "append_slice s x = Some ((case s of None \<Rightarrow> [] | Some xs \<Rightarrow> xs) @ [x])"

text \<open>
  \<open>ObserveQuery\<close>. Its first argument stands for
  \<open>fmt.Sprintf("%f miliseconds", d.Seconds()*1000)\<close> as a function of the duration \<open>d\<close>:
  the float64 product and its rendering are not modelled.
\<close>

definition ObserveQuery :: "(int \<Rightarrow> string) \<Rightarrow> queryLogger \<Rightarrow> ObservedQuery \<Rightarrow> queryLogger" where
  "ObserveQuery sprintf_ms q query =
     (let q1 = (if stats q = None then q\<lparr>stats := Some []\<rparr> else q);
          stat = \<lparr>Statement = OQ_Statement query,
                  Attempts = OQ_Attempts query,
                  Time = sprintf_ms (time_Sub (OQ_End query) (OQ_Start query)),
                  QS_Host = OQ_Host query,
                  Rows = OQ_Rows query\<rparr>
      in q1\<lparr>stats := append_slice (stats q1) stat\<rparr>)"

subsection \<open>The cluster and the driver\<close>

text \<open>
  What a node sends back for a column: the CQL types met here, and what the driver
  decodes each into (text as string, counter and bigint as int64, int as int, boolean as
  bool).
\<close>

datatype cql_value =
    CText string
  | CCounter "64 word"
  | CBigint "64 word"
  | CInt "32 word"
  | CBoolean bool

fun decode :: "cql_value \<Rightarrow> iface" where
  "decode (CText s) = GoString s"
| "decode (CCounter v) = GoInt64 v"
| "decode (CBigint v) = GoInt64 v"
| "decode (CInt v) = GoInt (scast v)"
| "decode (CBoolean b) = GoBool b"

type_synonym row = "(string \<times> cql_value) list"

text \<open>The answer to one physical attempt: when, which node, an error or the rows.\<close>

record response =
  r_start :: int
  r_end :: int
  r_host :: string
  r_err :: "error option"
  r_rows :: "row list"

datatype Consistency =
  Any | One | Two | Three | Quorum | All | LocalQuorum | EachQuorum | LocalOne

datatype RetryPolicy = SimpleRetryPolicy (NumRetries: nat)

text \<open>
  gocql.Query, as far as db.go configures it. The observer is a pointer: the address of a
  \<open>queryLogger\<close> in the store of the world below.
\<close>

record Query =
  stmt :: string
  args :: "iface list"
  cons :: Consistency
  observer :: "nat option"
  rt :: "RetryPolicy option"

datatype logline = Printf string "error list"

text \<open>
  The world db.go runs in. \<open>cluster\<close> answers the n-th physical attempt (an oracle:
  nothing is assumed of it); \<open>served\<close> counts the attempts made; \<open>issued\<close> lists the query
  of every attempt, in order; \<open>loggers\<close> is the store of observers with its next free
  address; \<open>dial\<close> is the outcome of \<open>CreateSession\<close> on a list of addresses;
  \<open>default_cons\<close> and \<open>default_rt\<close> are what the session gives a new query; \<open>sprintf_ms\<close>
  is the rendering used by \<open>ObserveQuery\<close>; \<open>logged\<close> is the output of \<open>log.Printf\<close>.
\<close>

record world =
  cluster :: "nat \<Rightarrow> response"
  served :: nat
  issued :: "Query list"
  loggers :: "nat \<Rightarrow> queryLogger"
  next_logger :: nat
  dial :: "string list \<Rightarrow> error option"
  default_cons :: Consistency
  default_rt :: "RetryPolicy option"
  sprintf_ms :: "int \<Rightarrow> string"
  logged :: "logline list"

definition log_Printf :: "string \<Rightarrow> error list \<Rightarrow> world \<Rightarrow> world" where
  "log_Printf f es w = w\<lparr>logged := logged w @ [Printf f es]\<rparr>"

text \<open>\<open>session.Query(stmt, values...)\<close> and the setters of gocql.Query.\<close>

definition Session_Query :: "world \<Rightarrow> string \<Rightarrow> iface list \<Rightarrow> Query" where
  "Session_Query w s vs =
     \<lparr>stmt = s, args = vs, cons = default_cons w, observer = None, rt = default_rt w\<rparr>"

definition Query_Consistency :: "Consistency \<Rightarrow> Query \<Rightarrow> Query" where
  "Query_Consistency c q = q\<lparr>cons := c\<rparr>"

definition Query_Observer :: "nat \<Rightarrow> Query \<Rightarrow> Query" where
  "Query_Observer a q = q\<lparr>observer := Some a\<rparr>"

definition Query_RetryPolicy :: "RetryPolicy \<Rightarrow> Query \<Rightarrow> Query" where
  "Query_RetryPolicy p q = q\<lparr>rt := Some p\<rparr>"

text \<open>
  One physical attempt: the cluster answers, and the driver calls the query's observer
  once, with the query's statement, the number of attempts of this logical query so far,
  the two instants, the node and the number of rows.
\<close>

definition observed :: "Query \<Rightarrow> nat \<Rightarrow> response \<Rightarrow> ObservedQuery" where
  "observed q k r =
     \<lparr>OQ_Statement = stmt q, OQ_Attempts = int k, OQ_Start = r_start r, OQ_End = r_end r,
      OQ_Host = r_host r, OQ_Rows = int (length (r_rows r))\<rparr>"

definition notify :: "Query \<Rightarrow> ObservedQuery \<Rightarrow> world \<Rightarrow> world" where
  "notify q oq w =
     (case observer q of
        None \<Rightarrow> w
      | Some a \<Rightarrow> w\<lparr>loggers := (loggers w)(a := ObserveQuery (sprintf_ms w) (loggers w a) oq)\<rparr>)"

definition attempt :: "Query \<Rightarrow> nat \<Rightarrow> world \<Rightarrow> response \<times> world" where
  "attempt q k w =
     (let r = cluster w (served w);
          w1 = w\<lparr>served := Suc (served w), issued := issued w @ [q]\<rparr>
      in (r, notify q (observed q k r) w1))"

text \<open>
  The driver's retry loop under \<open>SimpleRetryPolicy\<close>, by the policy's rule: a failed attempt
  is retried while the attempts made do not exceed \<open>NumRetries\<close>, whatever the error (spec,
  section 4.2); a query with no policy is tried once. The first argument is the number of
  retries left, the third the number of the attempt to make. Which node an attempt goes to
  is the cluster's business: the answer names it. Cancellation and running out of nodes
  are not modelled.
\<close>

fun run :: "nat \<Rightarrow> Query \<Rightarrow> nat \<Rightarrow> world \<Rightarrow> response \<times> world" where
  "run 0 q k w = attempt q k w"
| "run (Suc n) q k w =
     (case attempt q k w of
        (r, w') \<Rightarrow> if r_err r = None then (r, w') else run n q (Suc k) w')"

definition retries :: "RetryPolicy option \<Rightarrow> nat" where
  "retries p = (case p of None \<Rightarrow> 0 | Some (SimpleRetryPolicy n) \<Rightarrow> n)"

definition Query_Iter :: "Query \<Rightarrow> world \<Rightarrow> response \<times> world" where
  "Query_Iter q w = run (retries (rt q)) q 1 w"

text \<open>\<open>query.Exec()\<close>: run the query, return its error.\<close>

definition Query_Exec :: "Query \<Rightarrow> world \<Rightarrow> error option \<times> world" where
  "Query_Exec q w = (case Query_Iter q w of (r, w') \<Rightarrow> (r_err r, w'))"

text \<open>
  \<open>query.MapScan(m)\<close>, by the driver's documentation: it executes the query, copies the
  columns of the first selected row into the map and discards the rest; if no rows were
  selected, \<open>ErrNotFound\<close> is returned. The map is returned with the error, as the caller's
  map is updated in place. \<open>rowMap\<close> stores each column of the row under its name.
\<close>

definition rowMap :: "row \<Rightarrow> gomap \<Rightarrow> gomap" where
  "rowMap first m = fold (\<lambda>(c, v) m'. m'(c \<mapsto> decode v)) first m"

definition Query_MapScan :: "Query \<Rightarrow> gomap \<Rightarrow> world \<Rightarrow> (error option \<times> gomap) \<times> world" where
  "Query_MapScan q m w =
     (case Query_Iter q w of
        (r, w') \<Rightarrow>
          (case r_err r of
             Some e \<Rightarrow> ((Some e, m), w')
           | None \<Rightarrow>
               (case r_rows r of
                  [] \<Rightarrow> ((Some ErrNotFound, m), w')
                | first # _ \<Rightarrow>
                    ((None, rowMap first m), w'))))"

subsection \<open>The counter store (db.go, lines 88 to 118)\<close>

text \<open>
  \<open>cassandraDB\<close>: the session is the world, which every function takes and returns; the
  struct keeps the host name.
\<close>

record cassandraDB =
  hostname :: string

definition increment_cql :: string where
  "increment_cql = ''UPDATE counter SET value=value+1 WHERE name = ?''"

definition get_cql :: string where
  "get_cql = ''SELECT name, value FROM counter WHERE name=? LIMIT 1''"

definition increment :: "cassandraDB \<Rightarrow> string \<Rightarrow> nat \<Rightarrow> world \<Rightarrow> error option \<times> world" where
  "increment c name obs w =
     (let query = Session_Query w increment_cql [GoString name];
          query = Query_RetryPolicy (SimpleRetryPolicy 5) (Query_Observer obs query)
      in Query_Exec query w)"

text \<open>
  \<open>get\<close>. The last line of the source is \<open>m["value"].(int64)\<close>, a type assertion with one
  result: it panics unless the map holds an int64 under \<open>value\<close>.
\<close>

definition get :: "cassandraDB \<Rightarrow> string \<Rightarrow> nat \<Rightarrow> world \<Rightarrow> (int64 \<times> error option) outcome \<times> world" where
  "get c name obs w =
     (let m = Map.empty;
          cql = get_cql;
          query = Query_Consistency One (Session_Query w cql [GoString name]);
          query = Query_RetryPolicy (SimpleRetryPolicy 5) (Query_Observer obs query)
      in case Query_MapScan query m w of
           ((Some err, m'), w') \<Rightarrow> (Returns (0, Some err), w')
         | ((None, m'), w') \<Rightarrow>
             (case m' ''value'' of
                Some (GoInt64 v) \<Rightarrow> (Returns (v, None), w')
              | _ \<Rightarrow> (Panics, w')))"

text \<open>\<open>&queryLogger{}\<close>: a fresh observer in the store, and its address.\<close>

definition new_queryLogger :: "world \<Rightarrow> nat \<times> world" where
  "new_queryLogger w =
     (next_logger w,
      w\<lparr>loggers := (loggers w)(next_logger w := \<lparr>stats = None\<rparr>),
        next_logger := Suc (next_logger w)\<rparr>)"

definition IncrementAndGet :: "cassandraDB \<Rightarrow> string \<Rightarrow> world \<Rightarrow> (Counter \<times> error option) outcome \<times> world" where
  "IncrementAndGet c counterName w =
     (case new_queryLogger w of
        (obs, w0) \<Rightarrow>
          (case increment c counterName obs w0 of
             (Some err, w1) \<Rightarrow>
               (Returns (Counter_zero, Some (Errorf ''error incrementing %q: %s'' counterName err)), w1)
           | (None, w1) \<Rightarrow>
               (case get c counterName obs w1 of
                  (Panics, w2) \<Rightarrow> (Panics, w2)
                | (Returns (count, Some err), w2) \<Rightarrow>
                    (Returns (Counter_zero, Some (Errorf ''error getting %q: %s'' counterName err)), w2)
                | (Returns (count, None), w2) \<Rightarrow>
                    (Returns (\<lparr>Value = count, Name = counterName, Host = hostname c,
                               DBStats = stats (loggers w2 obs)\<rparr>, None), w2))))"

subsection \<open>Schema bootstrap (db.go, lines 59 to 86)\<close>

definition keyspace_cql :: string where
  "keyspace_cql = ''CREATE KEYSPACE IF NOT EXISTS caas WITH replication = {'class': 'SimpleStrategy', 'replication_factor' : 3};''"

definition table_cql :: string where
  "table_cql = ''CREATE TABLE IF NOT EXISTS counter (name text, value counter, PRIMARY KEY (name))''"

text \<open>
  \<open>createKeyspace\<close>: a session of its own on the addresses (closed on return, which changes
  nothing here), one statement, the error logged and returned.
\<close>

definition createKeyspace :: "string list \<Rightarrow> world \<Rightarrow> error option \<times> world" where
  "createKeyspace ips w =
     (case dial w ips of
        Some err \<Rightarrow> (Some err, w)
      | None \<Rightarrow>
          (let cql = keyspace_cql;
               query = Session_Query w cql []
           in case Query_Exec query w of
                (Some err, w') \<Rightarrow> (Some err, log_Printf ''error creating keyspace: %s'' [err] w')
              | (None, w') \<Rightarrow> (None, log_Printf ''keyspace created'' [] w')))"

definition createTables :: "world \<Rightarrow> error option \<times> world" where
  "createTables w =
     (let cql = table_cql;
          query = Session_Query w cql []
      in case Query_Exec query w of
           (Some err, w') \<Rightarrow> (Some err, log_Printf ''error creating table: %s'' [err] w')
         | (None, w') \<Rightarrow> (None, log_Printf ''table created'' [] w'))"

subsection \<open>What the two schema statements say\<close>

text \<open>
  The two statements are fixed strings. To state what they ask for, the statements of
  CQL's data definition language that matter here are given as terms with their concrete
  syntax (\<open>render\<close>) and their documented effect on a cluster's schema (\<open>apply_ddl\<close>): a
  creation with \<open>IF NOT EXISTS\<close> leaves an existing object alone and reports no error, one
  without it reports \<open>AlreadyExists\<close>.
\<close>

datatype cql_type = TText | TCounter

datatype ddl =
    CreateKeyspace bool string string nat
  | CreateTable bool string "(string \<times> cql_type) list" "string list"

fun type_name :: "cql_type \<Rightarrow> string" where
  "type_name TText = ''text''"
| "type_name TCounter = ''counter''"

fun commas :: "string list \<Rightarrow> string" where
  "commas [] = []"
| "commas [x] = x"
| "commas (x # y # ys) = x @ '', '' @ commas (y # ys)"

definition quoted :: "string \<Rightarrow> string" where
  "quoted s = [CHR 0x27] @ s @ [CHR 0x27]"

definition digit :: "nat \<Rightarrow> char" where
  "digit n = char_of (48 + n)"

fun decimal :: "nat \<Rightarrow> string" where
  "decimal n = (if n < 10 then [digit n] else decimal (n div 10) @ [digit (n mod 10)])"

definition if_not_exists :: "bool \<Rightarrow> string" where
  "if_not_exists b = (if b then ''IF NOT EXISTS '' else [])"

fun render :: "ddl \<Rightarrow> string" where
  "render (CreateKeyspace ine k cls rf) =
     ''CREATE KEYSPACE '' @ if_not_exists ine @ k @ '' WITH replication = {''
       @ quoted ''class'' @ '': '' @ quoted cls @ '', ''
       @ quoted ''replication_factor'' @ '' : '' @ decimal rf @ ''};''"
| "render (CreateTable ine t cols pk) =
     ''CREATE TABLE '' @ if_not_exists ine @ t @ '' (''
       @ commas (map (\<lambda>(c, ty). c @ '' '' @ type_name ty) cols
                 @ [''PRIMARY KEY ('' @ commas pk @ '')'']) @ '')''"

record schema =
  keyspaces :: "(string \<times> string \<times> nat) list"
  tables :: "(string \<times> (string \<times> cql_type) list \<times> string list) list"

datatype ddl_error = AlreadyExists

fun apply_ddl :: "ddl \<Rightarrow> schema \<Rightarrow> ddl_error + schema" where
  "apply_ddl (CreateKeyspace ine k cls rf) s =
     (if k \<in> fst ` set (keyspaces s)
      then (if ine then Inr s else Inl AlreadyExists)
      else Inr (s\<lparr>keyspaces := keyspaces s @ [(k, cls, rf)]\<rparr>))"
| "apply_ddl (CreateTable ine t cols pk) s =
     (if t \<in> fst ` set (tables s)
      then (if ine then Inr s else Inl AlreadyExists)
      else Inr (s\<lparr>tables := tables s @ [(t, cols, pk)]\<rparr>))"

subsection \<open>Names used in the statements below\<close>

text \<open>The two queries as \<open>increment\<close> and \<open>get\<close> build them, and the stat one attempt leaves.\<close>

definition increment_query :: "world \<Rightarrow> string \<Rightarrow> nat \<Rightarrow> Query" where
  "increment_query w name obs =
     Query_RetryPolicy (SimpleRetryPolicy 5)
       (Query_Observer obs (Session_Query w increment_cql [GoString name]))"

definition get_query :: "world \<Rightarrow> string \<Rightarrow> nat \<Rightarrow> Query" where
  "get_query w name obs =
     Query_RetryPolicy (SimpleRetryPolicy 5)
       (Query_Observer obs (Query_Consistency One (Session_Query w get_cql [GoString name])))"

definition stat_of :: "(int \<Rightarrow> string) \<Rightarrow> Query \<Rightarrow> nat \<Rightarrow> response \<Rightarrow> QueryStat" where
  "stat_of f q k r =
     \<lparr>Statement = stmt q, Attempts = int k, Time = f (time_Sub (r_end r) (r_start r)),
      QS_Host = r_host r, Rows = int (length (r_rows r))\<rparr>"

definition slice :: "'a list option \<Rightarrow> 'a list" where
  "slice s = (case s of None \<Rightarrow> [] | Some xs \<Rightarrow> xs)"

text \<open>
  The rows a read of the table made by \<open>table_cql\<close> selects with \<open>get_cql\<close>: a text
  \<open>name\<close> and a counter \<open>value\<close>.
\<close>

fun conforms :: "row \<Rightarrow> bool" where
  "conforms [(c1, CText n), (c2, CCounter v)] = (c1 = ''name'' \<and> c2 = ''value'')"
| "conforms _ = False"

text \<open>
  The spec's wording of the two statements, and the tokens of a statement: maximal runs of
  letters, digits and underscores, and every other character but the space on its own.
\<close>

definition spec_increment_statement :: string where
  "spec_increment_statement = ''UPDATE counter SET value = value + 1 WHERE name = ?''"

definition spec_read_statement :: string where
  "spec_read_statement = ''SELECT name, value FROM counter WHERE name = ? LIMIT 1''"

definition word_char :: "char \<Rightarrow> bool" where
  "word_char c =
     ((CHR ''a'' \<le> c \<and> c \<le> CHR ''z'') \<or> (CHR ''A'' \<le> c \<and> c \<le> CHR ''Z'')
      \<or> (CHR ''0'' \<le> c \<and> c \<le> CHR ''9'') \<or> c = CHR ''_'')"

fun tokens_from :: "string \<Rightarrow> string \<Rightarrow> string list" where
  "tokens_from acc [] = (if acc = [] then [] else [acc])"
| "tokens_from acc (c # cs) =
     (if word_char c then tokens_from (acc @ [c]) cs
      else (if acc = [] then [] else [acc])
           @ (if c = CHR '' '' then [] else [ [c] ]) @ tokens_from [] cs)"

definition cql_tokens :: "string \<Rightarrow> string list" where
  "cql_tokens s = tokens_from [] s"

text \<open>What an attempt leaves alone in the world.\<close>

definition same_session :: "world \<Rightarrow> world \<Rightarrow> bool" where
  "same_session w w' \<longleftrightarrow>
     cluster w' = cluster w \<and> next_logger w' = next_logger w \<and> sprintf_ms w' = sprintf_ms w
     \<and> default_cons w' = default_cons w \<and> default_rt w' = default_rt w \<and> dial w' = dial w
     \<and> logged w' = logged w"


text \<open>The two statements of the bootstrap as terms, and a list of statements run in order.\<close>

definition bootstrap_ddl :: "ddl list" where
  "bootstrap_ddl =
     [CreateKeyspace True ''caas'' ''SimpleStrategy'' 3,
      CreateTable True ''counter'' [(''name'', TText), (''value'', TCounter)] [''name'']]"

fun apply_all :: "ddl list \<Rightarrow> schema \<Rightarrow> ddl_error + schema" where
  "apply_all [] s = Inr s"
| "apply_all (d # ds) s = (case apply_ddl d s of Inl e \<Rightarrow> Inl e | Inr s' \<Rightarrow> apply_all ds s')"

subsection \<open>Example worlds\<close>

text \<open>
  Clusters to run the functions on: one that answers every attempt (the first with no
  rows, as an update is answered, the others with one row of the table), one that fails
  every attempt, one that answers every attempt with no rows, and one whose rows have a
  \<open>value\<close> of another type than the table has.
\<close>


definition row_hits :: row where
  "row_hits = [(''name'', CText ''hits''), (''value'', CCounter 7)]"

definition answer_ok :: "row list \<Rightarrow> response" where
  "answer_ok rows =
     \<lparr>r_start = 1000, r_end = 3500, r_host = ''10.0.0.1'', r_err = None, r_rows = rows\<rparr>"


definition healthy_cluster :: "nat \<Rightarrow> response" where
  "healthy_cluster n = (if n = 0 then answer_ok [] else answer_ok [row_hits])"


definition lagging_cluster :: "nat \<Rightarrow> response" where
  "lagging_cluster n = answer_ok []"

definition example_sprintf :: "int \<Rightarrow> string" where
  "example_sprintf d = decimal (nat d) @ '' ns''"

definition example_world :: "(nat \<Rightarrow> response) \<Rightarrow> world" where
  "example_world cl =
     \<lparr>cluster = cl, served = 0, issued = [], loggers = (\<lambda>_. \<lparr>stats = None\<rparr>), next_logger = 0,
      dial = (\<lambda>_. None), default_cons = Quorum, default_rt = None,
      sprintf_ms = example_sprintf, logged = []\<rparr>"

definition example_db :: cassandraDB where
  "example_db = \<lparr>hostname = ''caas-1''\<rparr>"

definition example_counter :: Counter where
  "example_counter =
     \<lparr>Value = 7, Name = ''hits'', Host = ''caas-1'',
      DBStats = Some
        [\<lparr>Statement = increment_cql, Attempts = 1, Time = ''2500 ns'', QS_Host = ''10.0.0.1'',
          Rows = 0\<rparr>,
         \<lparr>Statement = get_cql, Attempts = 1, Time = ''2500 ns'', QS_Host = ''10.0.0.1'',
          Rows = 1\<rparr>]\<rparr>"

definition empty_schema :: schema where
  "empty_schema = \<lparr>keyspaces = [], tables = []\<rparr>"

definition caas_schema :: schema where
  "caas_schema =
     \<lparr>keyspaces = [(''caas'', ''SimpleStrategy'', 3)],
      tables = [(''counter'', [(''name'', TText), (''value'', TCounter)], [''name''])]\<rparr>"

definition mistyped_cluster :: "nat \<Rightarrow> response" where
  "mistyped_cluster n = answer_ok [ [(''name'', CText ''hits''), (''value'', CInt 7)] ]"

section \<open>The observer and the retry loop\<close>

lemma ObserveQuery_stats:
  "stats (ObserveQuery f l oq) =
     Some (slice (stats l) @
       [\<lparr>Statement = OQ_Statement oq, Attempts = OQ_Attempts oq,
         Time = f (time_Sub (OQ_End oq) (OQ_Start oq)), QS_Host = OQ_Host oq,
         Rows = OQ_Rows oq\<rparr>])"
  by (cases "stats l") (simp_all add: ObserveQuery_def append_slice_def slice_def Let_def)

lemma ObserveQuery_observed:
  "stats (ObserveQuery f l (observed q k r)) = Some (slice (stats l) @ [stat_of f q k r])"
  by (simp add: ObserveQuery_stats observed_def stat_of_def)

lemma attempt_result: "attempt q k w = (r, w') \<Longrightarrow> r = cluster w (served w)"
  by (auto simp: attempt_def notify_def Let_def split: option.splits)

lemma attempt_served: "attempt q k w = (r, w') \<Longrightarrow> served w' = Suc (served w)"
  by (auto simp: attempt_def notify_def Let_def split: option.splits)

lemma attempt_issued: "attempt q k w = (r, w') \<Longrightarrow> issued w' = issued w @ [q]"
  by (auto simp: attempt_def notify_def Let_def split: option.splits)

lemma attempt_frame: "attempt q k w = (r, w') \<Longrightarrow> same_session w w'"
  by (auto simp: attempt_def notify_def Let_def same_session_def split: option.splits)

lemma attempt_logger:
  "attempt q k w = (r, w') \<Longrightarrow> observer q = Some a \<Longrightarrow>
     stats (loggers w' a) = Some (slice (stats (loggers w a)) @ [stat_of (sprintf_ms w) q k (cluster w (served w))])"
  by (auto simp: attempt_def notify_def Let_def ObserveQuery_observed)

lemma attempt_other_loggers:
  "attempt q k w = (r, w') \<Longrightarrow> observer q \<noteq> Some b \<Longrightarrow> loggers w' b = loggers w b"
  by (auto simp: attempt_def notify_def Let_def split: option.splits)

lemma run_frame: "run n q k w = (r, w') \<Longrightarrow> same_session w w'"
proof (induction n arbitrary: k w)
  case 0
  then show ?case by (simp add: attempt_frame)
next
  case (Suc n)
  obtain r1 w1 where a: "attempt q k w = (r1, w1)" by (cases "attempt q k w")
  show ?case
  proof (cases "r_err r1 = None")
    case True
    with Suc.prems a show ?thesis by (simp add: attempt_frame)
  next
    case False
    with Suc.prems a have "run n q (Suc k) w1 = (r, w')" by simp
    from Suc.IH [OF this] attempt_frame [OF a] show ?thesis
      by (simp add: same_session_def)
  qed
qed

lemma run_served: "run n q k w = (r, w') \<Longrightarrow> served w < served w' \<and> served w' \<le> served w + Suc n"
proof (induction n arbitrary: k w)
  case 0
  then show ?case by (simp add: attempt_served)
next
  case (Suc n)
  obtain r1 w1 where a: "attempt q k w = (r1, w1)" by (cases "attempt q k w")
  show ?case
  proof (cases "r_err r1 = None")
    case True
    with Suc.prems a show ?thesis by (simp add: attempt_served)
  next
    case False
    with Suc.prems a have "run n q (Suc k) w1 = (r, w')" by simp
    from Suc.IH [OF this] attempt_served [OF a] show ?thesis by simp
  qed
qed

lemma run_result: "run n q k w = (r, w') \<Longrightarrow> r = cluster w (served w' - 1)"
proof (induction n arbitrary: k w)
  case 0
  then show ?case using attempt_served [of q k w r w'] attempt_result [of q k w r w'] by simp
next
  case (Suc n)
  obtain r1 w1 where a: "attempt q k w = (r1, w1)" by (cases "attempt q k w")
  show ?case
  proof (cases "r_err r1 = None")
    case True
    with Suc.prems a show ?thesis using attempt_served [OF a] attempt_result [OF a] by simp
  next
    case False
    with Suc.prems a have "run n q (Suc k) w1 = (r, w')" by simp
    from Suc.IH [OF this] attempt_frame [OF a] show ?thesis by (simp add: same_session_def)
  qed
qed

lemma run_failed_before:
  "run n q k w = (r, w') \<Longrightarrow> served w \<le> i \<Longrightarrow> Suc i < served w' \<Longrightarrow> r_err (cluster w i) \<noteq> None"
proof (induction n arbitrary: k w)
  case 0
  then show ?case using attempt_served [of q k w r w'] by simp
next
  case (Suc n)
  obtain r1 w1 where a: "attempt q k w = (r1, w1)" by (cases "attempt q k w")
  show ?case
  proof (cases "r_err r1 = None")
    case True
    with Suc.prems a show ?thesis using attempt_served [OF a] by simp
  next
    case False
    with Suc.prems a have r: "run n q (Suc k) w1 = (r, w')" by simp
    show ?thesis
    proof (cases "i = served w")
      case True
      with False attempt_result [OF a] show ?thesis by simp
    next
      case False
      with Suc.prems attempt_served [OF a] have "served w1 \<le> i" by simp
      from Suc.IH [OF r this Suc.prems(3)] attempt_frame [OF a] show ?thesis
        by (simp add: same_session_def)
    qed
  qed
qed

lemma run_exhausted:
  "run n q k w = (r, w') \<Longrightarrow> r_err r \<noteq> None \<Longrightarrow> served w' = served w + Suc n"
proof (induction n arbitrary: k w)
  case 0
  then show ?case by (simp add: attempt_served)
next
  case (Suc n)
  obtain r1 w1 where a: "attempt q k w = (r1, w1)" by (cases "attempt q k w")
  show ?case
  proof (cases "r_err r1 = None")
    case True
    with Suc.prems a show ?thesis by simp
  next
    case False
    with Suc.prems a have "run n q (Suc k) w1 = (r, w')" by simp
    from Suc.IH [OF this Suc.prems(2)] attempt_served [OF a] show ?thesis by simp
  qed
qed

lemma run_issued:
  "run n q k w = (r, w') \<Longrightarrow> issued w' = issued w @ replicate (served w' - served w) q"
proof (induction n arbitrary: k w)
  case 0
  then show ?case using attempt_served [of q k w r w'] attempt_issued [of q k w r w'] by simp
next
  case (Suc n)
  obtain r1 w1 where a: "attempt q k w = (r1, w1)" by (cases "attempt q k w")
  show ?case
  proof (cases "r_err r1 = None")
    case True
    with Suc.prems a show ?thesis using attempt_served [OF a] attempt_issued [OF a] by simp
  next
    case False
    with Suc.prems a have r: "run n q (Suc k) w1 = (r, w')" by simp
    from run_served [OF r] attempt_served [OF a]
    have "served w' - served w = Suc (served w' - served w1)" by arith
    with Suc.IH [OF r] attempt_issued [OF a] show ?thesis
      by (simp add: replicate_append_same)
  qed
qed

lemma run_other_loggers:
  "run n q k w = (r, w') \<Longrightarrow> observer q \<noteq> Some b \<Longrightarrow> loggers w' b = loggers w b"
proof (induction n arbitrary: k w)
  case 0
  then show ?case by (simp add: attempt_other_loggers)
next
  case (Suc n)
  obtain r1 w1 where a: "attempt q k w = (r1, w1)" by (cases "attempt q k w")
  show ?case
  proof (cases "r_err r1 = None")
    case True
    with Suc.prems a show ?thesis by (simp add: attempt_other_loggers)
  next
    case False
    with Suc.prems a have r: "run n q (Suc k) w1 = (r, w')" by simp
    from Suc.IH [OF r Suc.prems(2)] attempt_other_loggers [OF a Suc.prems(2)] show ?thesis by simp
  qed
qed

lemma run_logger:
  "run n q k w = (r, w') \<Longrightarrow> observer q = Some a \<Longrightarrow>
     stats (loggers w' a) =
       Some (slice (stats (loggers w a)) @
         map (\<lambda>i. stat_of (sprintf_ms w) q (k + i) (cluster w (served w + i)))
           [0 ..< served w' - served w])"
proof (induction n arbitrary: k w)
  case 0
  then show ?case using attempt_served [of q k w r w'] attempt_logger [of q k w r w' a] by simp
next
  case (Suc n)
  obtain r1 w1 where a: "attempt q k w = (r1, w1)" by (cases "attempt q k w")
  show ?case
  proof (cases "r_err r1 = None")
    case True
    with Suc.prems a show ?thesis using attempt_served [OF a] attempt_logger [OF a] by simp
  next
    case False
    with Suc.prems a have r: "run n q (Suc k) w1 = (r, w')" by simp
    from run_served [OF r] attempt_served [OF a]
    have d: "served w' - served w = Suc (served w' - served w1)" by arith
    have f: "sprintf_ms w1 = sprintf_ms w" "cluster w1 = cluster w"
      using attempt_frame [OF a] by (simp_all add: same_session_def)
    have "[0 ..< Suc (served w' - served w1)] = 0 # map Suc [0 ..< served w' - served w1]"
      by (simp add: upt_conv_Cons map_Suc_upt del: upt_Suc)
    with Suc.IH [OF r Suc.prems(2)] attempt_logger [OF a Suc.prems(2)] attempt_served [OF a] d f
    show ?thesis by (simp add: slice_def comp_def del: upt_Suc)
  qed
qed

subsection \<open>Exhaustion and early success\<close>


lemma run_stops:
  assumes "run n q k w = (r, w')" and "j \<le> n"
    and "r_err (cluster w (served w + j)) = None"
    and "\<forall>i<j. r_err (cluster w (served w + i)) \<noteq> None"
  shows "served w' = served w + Suc j"
proof -
  have le: "served w' \<le> served w + Suc j"
  proof (rule ccontr)
    assume "\<not> served w' \<le> served w + Suc j"
    then have "Suc (served w + j) < served w'" by simp
    from run_failed_before [OF assms(1) _ this] assms(3) show False by simp
  qed
  have ge: "served w + Suc j \<le> served w'"
  proof (rule ccontr)
    assume "\<not> served w + Suc j \<le> served w'"
    with run_served [OF assms(1)]
    have lt: "served w' - 1 - served w < j" and eq: "served w + (served w' - 1 - served w) = served w' - 1"
      by arith+
    from assms(4) lt have "r_err (cluster w (served w + (served w' - 1 - served w))) \<noteq> None" by blast
    with eq run_result [OF assms(1)] have "r_err r \<noteq> None" by simp
    from run_exhausted [OF assms(1) this] lt assms(2) show False by arith
  qed
  from le ge show ?thesis by simp
qed

lemma increment_query_fields:
  "stmt (increment_query w name obs) = increment_cql"
  "args (increment_query w name obs) = [GoString name]"
  "cons (increment_query w name obs) = default_cons w"
  "observer (increment_query w name obs) = Some obs"
  "rt (increment_query w name obs) = Some (SimpleRetryPolicy 5)"
  by (simp_all add: increment_query_def Query_RetryPolicy_def Query_Observer_def Session_Query_def)

lemma get_query_fields:
  "stmt (get_query w name obs) = get_cql"
  "args (get_query w name obs) = [GoString name]"
  "cons (get_query w name obs) = One"
  "observer (get_query w name obs) = Some obs"
  "rt (get_query w name obs) = Some (SimpleRetryPolicy 5)"
  by (simp_all add: get_query_def Query_RetryPolicy_def Query_Observer_def Query_Consistency_def
      Session_Query_def)

lemma Iter_increment_query: "Query_Iter (increment_query w name obs) w' = run 5 (increment_query w name obs) 1 w'"
  by (simp add: Query_Iter_def retries_def increment_query_fields)

lemma Iter_get_query: "Query_Iter (get_query w name obs) w' = run 5 (get_query w name obs) 1 w'"
  by (simp add: Query_Iter_def retries_def get_query_fields)

lemma increment_run:
  "increment c name obs w = (case run 5 (increment_query w name obs) 1 w of (r, w') \<Rightarrow> (r_err r, w'))"
  unfolding increment_def Let_def Query_Exec_def
  unfolding increment_query_def [symmetric] Iter_increment_query
  by simp

lemma get_run:
  "get c name obs w =
     (case run 5 (get_query w name obs) 1 w of
        (r, w') \<Rightarrow>
          (case r_err r of
             Some e \<Rightarrow> (Returns (0, Some e), w')
           | None \<Rightarrow>
               (case r_rows r of
                  [] \<Rightarrow> (Returns (0, Some ErrNotFound), w')
                | first # rest \<Rightarrow>
                    (case rowMap first Map.empty ''value'' of
                       Some (GoInt64 v) \<Rightarrow> (Returns (v, None), w')
                     | _ \<Rightarrow> (Panics, w')))))"
  unfolding get_def Let_def Query_MapScan_def
  unfolding get_query_def [symmetric] Iter_get_query
  by (simp split: prod.splits option.splits list.splits)

lemma new_queryLogger_fields:
  assumes "new_queryLogger w = (obs, w0)"
  shows "obs = next_logger w" "served w0 = served w" "issued w0 = issued w"
    "cluster w0 = cluster w" "sprintf_ms w0 = sprintf_ms w" "stats (loggers w0 obs) = None"
    "default_cons w0 = default_cons w" "default_rt w0 = default_rt w"
  using assms by (auto simp: new_queryLogger_def)

lemma IncrementAndGet_cases [case_names inc_err panics get_err ok]:
  obtains
    (inc_err) w0 w1 e where
      "new_queryLogger w = (next_logger w, w0)"
      "increment c name (next_logger w) w0 = (Some e, w1)"
      "IncrementAndGet c name w =
         (Returns (Counter_zero, Some (Errorf ''error incrementing %q: %s'' name e)), w1)"
  | (panics) w0 w1 w2 where
      "new_queryLogger w = (next_logger w, w0)"
      "increment c name (next_logger w) w0 = (None, w1)"
      "get c name (next_logger w) w1 = (Panics, w2)"
      "IncrementAndGet c name w = (Panics, w2)"
  | (get_err) w0 w1 w2 v e where
      "new_queryLogger w = (next_logger w, w0)"
      "increment c name (next_logger w) w0 = (None, w1)"
      "get c name (next_logger w) w1 = (Returns (v, Some e), w2)"
      "IncrementAndGet c name w =
         (Returns (Counter_zero, Some (Errorf ''error getting %q: %s'' name e)), w2)"
  | (ok) w0 w1 w2 v where
      "new_queryLogger w = (next_logger w, w0)"
      "increment c name (next_logger w) w0 = (None, w1)"
      "get c name (next_logger w) w1 = (Returns (v, None), w2)"
      "IncrementAndGet c name w =
         (Returns (\<lparr>Value = v, Name = name, Host = hostname c,
                    DBStats = stats (loggers w2 (next_logger w))\<rparr>, None), w2)"
proof -
  obtain obs w0 where n: "new_queryLogger w = (obs, w0)" by (cases "new_queryLogger w")
  then have o: "obs = next_logger w" by (simp add: new_queryLogger_def)
  obtain e1 w1 where i: "increment c name obs w0 = (e1, w1)" by (cases "increment c name obs w0")
  show ?thesis
  proof (cases e1)
    case (Some e)
    with n i o show ?thesis by (intro inc_err [of w0 e w1]) (simp_all add: IncrementAndGet_def)
  next
    case None
    obtain res w2 where g: "get c name obs w1 = (res, w2)" by (cases "get c name obs w1")
    show ?thesis
    proof (cases res)
      case Panics
      with n i o None g show ?thesis
        by (intro panics [of w0 w1 w2]) (simp_all add: IncrementAndGet_def)
    next
      case (Returns p)
      obtain v e2 where p: "p = (v, e2)" by (cases p)
      show ?thesis
      proof (cases e2)
        case None2: None
        with n i o None g Returns p show ?thesis
          by (intro ok [of w0 w1 v w2]) (simp_all add: IncrementAndGet_def)
      next
        case (Some e)
        with n i o None g Returns p show ?thesis
          by (intro get_err [of w0 w1 v e w2]) (simp_all add: IncrementAndGet_def)
      qed
    qed
  qed
qed

subsection \<open>The two sub-operations\<close>

lemma same_session_trans: "same_session a b \<Longrightarrow> same_session b c \<Longrightarrow> same_session a c"
  by (simp add: same_session_def)

lemma run_first_ok: "r_err (cluster w (served w)) = None \<Longrightarrow> run n q k w = attempt q k w"
  by (cases n) (auto simp: attempt_def Let_def split: prod.splits)

lemma increment_as_run:
  "increment c name obs w = (e, w') \<Longrightarrow>
     \<exists>r. run 5 (increment_query w name obs) 1 w = (r, w') \<and> e = r_err r"
  by (auto simp: increment_run split: prod.splits)

lemma get_as_run:
  "get c name obs w = (res, w') \<Longrightarrow>
     \<exists>r. run 5 (get_query w name obs) 1 w = (r, w') \<and>
       res = (case r_err r of
                Some e \<Rightarrow> Returns (0, Some e)
              | None \<Rightarrow>
                  (case r_rows r of
                     [] \<Rightarrow> Returns (0, Some ErrNotFound)
                   | first # rest \<Rightarrow>
                       (case rowMap first Map.empty ''value'' of
                          Some (GoInt64 v) \<Rightarrow> Returns (v, None)
                        | _ \<Rightarrow> Panics)))"
  by (auto simp: get_run split: prod.splits option.splits list.splits iface.splits)


lemma statements_as_in_spec:
  "cql_tokens increment_cql = cql_tokens spec_increment_statement"
  "cql_tokens get_cql = cql_tokens spec_read_statement"
  by (simp_all add: cql_tokens_def increment_cql_def get_cql_def spec_increment_statement_def
      spec_read_statement_def word_char_def)

lemma conforms_value: "conforms first \<Longrightarrow> \<exists>v. rowMap first m ''value'' = Some (GoInt64 v)"
  by (erule conforms.elims) (simp_all add: rowMap_def)

lemma get_no_panic:
  assumes "\<forall>n. list_all conforms (r_rows (cluster w n))"
  shows "fst (get c name obs w) \<noteq> Panics"
proof -
  obtain res w' where g: "get c name obs w = (res, w')" by (cases "get c name obs w")
  from get_as_run [OF g] obtain r
    where r: "run 5 (get_query w name obs) 1 w = (r, w')"
      and res: "res = (case r_err r of
                Some e \<Rightarrow> Returns (0, Some e)
              | None \<Rightarrow>
                  (case r_rows r of
                     [] \<Rightarrow> Returns (0, Some ErrNotFound)
                   | first # rest \<Rightarrow>
                       (case rowMap first Map.empty ''value'' of
                          Some (GoInt64 v) \<Rightarrow> Returns (v, None)
                        | _ \<Rightarrow> Panics)))"
    by auto
  from run_result [OF r] assms have a: "list_all conforms (r_rows r)" by simp
  have "res \<noteq> Panics"
  proof (cases "r_err r")
    case (Some e)
    with res show ?thesis by simp
  next
    case None
    show ?thesis
    proof (cases "r_rows r")
      case Nil
      with None res show ?thesis by simp
    next
      case (Cons first rest)
      with a have "conforms first" by simp
      from conforms_value [OF this, of Map.empty] obtain v
        where "rowMap first Map.empty ''value'' = Some (GoInt64 v)" by auto
      with None Cons res show ?thesis by simp
    qed
  qed
  with g show ?thesis by simp
qed

lemma increment_effect:
  assumes "increment c name obs w = (e, w')"
  shows "served w < served w'" "served w' \<le> served w + 6"
    "issued w' = issued w @ replicate (served w' - served w) (increment_query w name obs)"
    "e = r_err (cluster w (served w' - 1))"
    "same_session w w'"
proof -
  from increment_as_run [OF assms] obtain r
    where r: "run 5 (increment_query w name obs) 1 w = (r, w')" and e: "e = r_err r" by auto
  from run_served [OF r] show "served w < served w'" "served w' \<le> served w + 6" by simp_all
  from run_issued [OF r]
  show "issued w' = issued w @ replicate (served w' - served w) (increment_query w name obs)" .
  from run_result [OF r] e show "e = r_err (cluster w (served w' - 1))" by simp
  from run_frame [OF r] show "same_session w w'" .
qed




lemma attempts_stop_at_success:
  assumes "j < 6" and "\<forall>i<j. r_err (cluster w (served w + i)) \<noteq> None"
    and "r_err (cluster w (served w + j)) = None"
  shows "served (snd (increment c name obs w)) = served w + Suc j"
    and "fst (increment c name obs w) = None"
    and "served (snd (get c name obs w)) = served w + Suc j"
proof -
  obtain e w' where i: "increment c name obs w = (e, w')" by (cases "increment c name obs w")
  from increment_as_run [OF i] obtain r
    where r: "run 5 (increment_query w name obs) 1 w = (r, w')" and e: "e = r_err r" by auto
  from assms(1) have j: "j \<le> 5" by simp
  from run_stops [OF r j assms(3,2)] have s: "served w' = served w + Suc j" .
  with i show "served (snd (increment c name obs w)) = served w + Suc j" by simp
  from increment_effect(4) [OF i] s i assms(3)
  show "fst (increment c name obs w) = None" by simp
  obtain res w2 where g: "get c name obs w = (res, w2)" by (cases "get c name obs w")
  from get_as_run [OF g] obtain r2
    where r2: "run 5 (get_query w name obs) 1 w = (r2, w2)" by auto
  from run_stops [OF r2 j assms(3,2)] g
  show "served (snd (get c name obs w)) = served w + Suc j" by simp
qed

lemma example_world_fields:
  "cluster (example_world cl) = cl" "served (example_world cl) = 0"
  "issued (example_world cl) = []" "next_logger (example_world cl) = 0"
  "default_cons (example_world cl) = Quorum" "default_rt (example_world cl) = None"
  "dial (example_world cl) = (\<lambda>_. None)" "sprintf_ms (example_world cl) = example_sprintf"
  "loggers (example_world cl) = (\<lambda>_. \<lparr>stats = None\<rparr>)"
  by (simp_all add: example_world_def)

lemma digit_values:
  "digit 0 = CHR ''0''" "digit 2 = CHR ''2''" "digit 3 = CHR ''3''" "digit 5 = CHR ''5''"
  by code_simp+

lemma example_render: "example_sprintf 2500 = ''2500 ns''"
  by (simp add: example_sprintf_def digit_values)

lemma example_new: "new_queryLogger (example_world cl) = (0, snd (new_queryLogger (example_world cl)))"
  by (simp add: new_queryLogger_def example_world_fields)

lemma example_new_fields:
  "cluster (snd (new_queryLogger (example_world cl))) = cl"
  "served (snd (new_queryLogger (example_world cl))) = 0"
  by (simp_all add: new_queryLogger_def example_world_fields)

lemma example_healthy_call:
  "fst (IncrementAndGet example_db ''hits'' (example_world healthy_cluster)) =
     Returns (example_counter, None)"
  by (simp add: IncrementAndGet_def new_queryLogger_def increment_run get_run run_first_ok
      attempt_def notify_def observed_def ObserveQuery_def append_slice_def time_Sub_def
      increment_query_fields get_query_fields healthy_cluster_def answer_ok_def row_hits_def
      rowMap_def example_world_def example_db_def example_counter_def Let_def example_render)

lemma example_healthy_served:
  "served (snd (IncrementAndGet example_db ''hits'' (example_world healthy_cluster))) = 2"
  by (simp add: IncrementAndGet_def new_queryLogger_def increment_run get_run run_first_ok
      attempt_def notify_def observed_def ObserveQuery_def append_slice_def time_Sub_def
      increment_query_fields get_query_fields healthy_cluster_def answer_ok_def row_hits_def
      rowMap_def example_world_def example_db_def Let_def)



lemma example_lagging_increment:
  "fst (increment example_db ''hits'' 0 (snd (new_queryLogger (example_world lagging_cluster)))) = None"
  by (rule attempts_stop_at_success(2) [where j = 0])
    (simp_all add: example_new_fields lagging_cluster_def answer_ok_def)

lemma Exec_effect:
  assumes "Query_Exec q w = (e, w')"
  shows "served w < served w'" "served w' \<le> served w + Suc (retries (rt q))"
    "issued w' = issued w @ replicate (served w' - served w) q"
proof -
  from assms obtain r where r: "run (retries (rt q)) q 1 w = (r, w')"
    by (auto simp: Query_Exec_def Query_Iter_def split: prod.splits)
  from run_served [OF r]
  show "served w < served w'" "served w' \<le> served w + Suc (retries (rt q))" by simp_all
  from run_issued [OF r] show "issued w' = issued w @ replicate (served w' - served w) q" .
qed

lemma log_Printf_fields: "issued (log_Printf f es w) = issued w" "served (log_Printf f es w) = served w"
  by (simp_all add: log_Printf_def)

lemma Session_Query_rt: "rt (Session_Query w s vs) = default_rt w"
  by (simp add: Session_Query_def)

lemma createKeyspace_issued:
  "\<exists>k. issued (snd (createKeyspace ips w)) = issued w @ replicate k (Session_Query w keyspace_cql [])
     \<and> (if dial w ips = None then 0 < k \<and> k \<le> Suc (retries (default_rt w)) else k = 0)"
proof (cases "dial w ips")
  case (Some err)
  then show ?thesis by (simp add: createKeyspace_def)
next
  case None
  let ?q = "Session_Query w keyspace_cql []"
  obtain e w' where x: "Query_Exec ?q w = (e, w')" by (cases "Query_Exec ?q w")
  from Exec_effect [OF x]
  have k: "0 < served w' - served w" "served w' - served w \<le> Suc (retries (default_rt w))"
    "issued w' = issued w @ replicate (served w' - served w) ?q"
    by (simp_all add: Session_Query_rt)
  from x None have "issued (snd (createKeyspace ips w)) = issued w'"
    by (cases e) (simp_all add: createKeyspace_def log_Printf_fields)
  with k None show ?thesis by auto
qed

lemma createTables_issued:
  "\<exists>k. issued (snd (createTables w)) = issued w @ replicate k (Session_Query w table_cql [])
     \<and> 0 < k \<and> k \<le> Suc (retries (default_rt w))"
proof -
  let ?q = "Session_Query w table_cql []"
  obtain e w' where x: "Query_Exec ?q w = (e, w')" by (cases "Query_Exec ?q w")
  from Exec_effect [OF x]
  have k: "0 < served w' - served w" "served w' - served w \<le> Suc (retries (default_rt w))"
    "issued w' = issued w @ replicate (served w' - served w) ?q"
    by (simp_all add: Session_Query_rt)
  from x have "issued (snd (createTables w)) = issued w'"
    by (cases e) (simp_all add: createTables_def log_Printf_fields)
  with k show ?thesis by auto
qed

lemma render_bootstrap: "map render bootstrap_ddl = [keyspace_cql, table_cql]"
  by (simp add: bootstrap_ddl_def keyspace_cql_def table_cql_def if_not_exists_def quoted_def
      digit_values)

lemma apply_ddl_idempotent:
  "d \<in> set bootstrap_ddl \<Longrightarrow> \<exists>s1. apply_ddl d s = Inr s1 \<and> apply_ddl d s1 = Inr s1"
  by (auto simp: bootstrap_ddl_def)

lemma apply_all_idempotent:
  "\<exists>s1. apply_all bootstrap_ddl s = Inr s1 \<and> apply_all bootstrap_ddl s1 = Inr s1"
  by (auto simp: bootstrap_ddl_def)

lemma example_lagging_call:
  "fst (IncrementAndGet example_db ''hits'' (example_world lagging_cluster)) =
     Returns (Counter_zero, Some (Errorf ''error getting %q: %s'' ''hits'' ErrNotFound))"
  by (simp add: IncrementAndGet_def new_queryLogger_def increment_run get_run
      run_first_ok attempt_def notify_def observed_def ObserveQuery_def append_slice_def
      increment_query_fields get_query_fields lagging_cluster_def answer_ok_def
      example_world_def Let_def)

lemma example_conforms: "\<forall>n. list_all conforms (r_rows (cluster (example_world healthy_cluster) n))"
  by (simp add: example_world_fields healthy_cluster_def answer_ok_def row_hits_def)

lemma example_healthy_whole:
  "IncrementAndGet example_db ''hits'' (example_world healthy_cluster) =
     (Returns (example_counter, None),
      snd (IncrementAndGet example_db ''hits'' (example_world healthy_cluster)))"
  using example_healthy_call by (simp add: prod_eq_iff)

text \<open>
  The assertion itself is not guarded: were a node to answer the read with a \<open>value\<close> that
  is not decoded as an int64 (here a CQL int), \<open>get\<close> would panic. The table of
  \<open>table_cql\<close> has no such column.
\<close>

lemma type_assertion_is_unguarded:
  "fst (get example_db ''hits'' 0 (example_world mistyped_cluster)) = Panics"
  by (simp add: get_run run_first_ok attempt_def notify_def mistyped_cluster_def answer_ok_def
      rowMap_def example_world_fields Let_def)

section \<open>The claims\<close>



text \<open>
  Claim C2. For every counter name, if the increment succeeds and the read-back query ends
  with an attempt that reports no error and no rows, \<open>get\<close> returns the driver's
  \<open>ErrNotFound\<close> and \<open>IncrementAndGet\<close> returns the zero counter with the error
  \<open>error getting <name>: not found\<close>: an error that carries the counter name and the
  missing-row cause, not a counter with a zero value and no error.
\<close>

theorem empty_read_is_read_error:
  assumes "new_queryLogger w = (obs, w0)"
    and "increment c name obs w0 = (None, w1)"
    and "Query_Iter (get_query w1 name obs) w1 = (r, w2)"
    and "r_err r = None" and "r_rows r = []"
  shows "get c name obs w1 = (Returns (0, Some ErrNotFound), w2)
     \<and> IncrementAndGet c name w =
         (Returns (Counter_zero, Some (Errorf ''error getting %q: %s'' name ErrNotFound)), w2)"
proof -
  from assms(3) have "run 5 (get_query w1 name obs) 1 w1 = (r, w2)"
    by (simp add: Iter_get_query)
  with assms(4,5) have g: "get c name obs w1 = (Returns (0, Some ErrNotFound), w2)"
    by (simp add: get_run)
  with assms(1,2) show ?thesis by (simp add: IncrementAndGet_def)
qed

text \<open>On the cluster that answers every attempt with no rows.\<close>

theorem empty_read_is_read_error_witness:
  "fst (IncrementAndGet example_db ''hits'' (example_world lagging_cluster)) =
     Returns (Counter_zero, Some (Errorf ''error getting %q: %s'' ''hits'' ErrNotFound))"
proof -
  let ?w0 = "snd (new_queryLogger (example_world lagging_cluster))"
  let ?w1 = "snd (increment example_db ''hits'' 0 ?w0)"
  let ?it = "Query_Iter (get_query ?w1 ''hits'' 0) ?w1"
  have i: "increment example_db ''hits'' 0 ?w0 = (None, ?w1)"
    using example_lagging_increment by (simp add: prod_eq_iff)
  have c: "cluster ?w1 = lagging_cluster"
    using increment_effect(5) [OF i] by (simp add: same_session_def example_new_fields)
  have g: "?it = (fst ?it, snd ?it)" by simp
  from g have "fst ?it = cluster ?w1 (served (snd ?it) - 1)"
    unfolding Iter_get_query by (rule run_result)
  with c have r: "r_err (fst ?it) = None" "r_rows (fst ?it) = []"
    by (simp_all add: lagging_cluster_def answer_ok_def)
  from empty_read_is_read_error [OF example_new i g r] show ?thesis by simp
qed

text \<open>
  Claim C3. The read-back does not panic: when every row the cluster returns is a row of the
  table that \<open>createTables\<close> declares (a text \<open>name\<close> and a counter \<open>value\<close>), neither
  \<open>get\<close> nor \<open>IncrementAndGet\<close> panics, whatever the attempts answer otherwise (errors,
  no rows, several rows). The type assertion to int64 then always finds an int64: a counter
  is decoded as one, and a read with no rows is turned into \<open>ErrNotFound\<close> before the map is
  looked at.
\<close>

theorem read_back_does_not_panic:
  assumes "\<forall>n. list_all conforms (r_rows (cluster w n))"
  shows "fst (get c name obs w) \<noteq> Panics \<and> fst (IncrementAndGet c name w) \<noteq> Panics"
proof (cases rule: IncrementAndGet_cases [where w = w and c = c and name = name])
  case (inc_err w0 w1 e1)
  with get_no_panic [OF assms] show ?thesis by simp
next
  case (panics w0 w1 w2)
  note n = new_queryLogger_fields [OF panics(1)]
  from increment_as_run [OF panics(2)] obtain ri
    where ri: "run 5 (increment_query w0 name (next_logger w)) 1 w0 = (ri, w1)" by auto
  from run_frame [OF ri] n have "cluster w1 = cluster w" by (simp add: same_session_def)
  with assms have "\<forall>n. list_all conforms (r_rows (cluster w1 n))" by simp
  from get_no_panic [OF this, of c name "next_logger w"] panics(3) show ?thesis by simp
next
  case (get_err w0 w1 w2 v e1)
  with get_no_panic [OF assms] show ?thesis by simp
next
  case (ok w0 w1 w2 v)
  with get_no_panic [OF assms] show ?thesis by simp
qed

text \<open>On the cluster that answers every attempt: its rows are rows of the table.\<close>

theorem read_back_does_not_panic_witness:
  "(\<forall>n. list_all conforms (r_rows (cluster (example_world healthy_cluster) n)))
   \<and> fst (get example_db ''hits'' 0 (example_world healthy_cluster)) \<noteq> Panics
   \<and> fst (IncrementAndGet example_db ''hits'' (example_world healthy_cluster)) =
       Returns (example_counter, None)"
  using read_back_does_not_panic [OF example_conforms, of example_db "''hits''" 0]
    example_conforms example_healthy_call
  by simp



text \<open>
  Claim C5. For every successful call of \<open>IncrementAndGet\<close> in which nothing is retried (the
  call makes two attempts in all), \<open>DBStats\<close> of the counter returned has exactly two
  entries, in this order: one whose statement is the \<open>UPDATE\<close> statement, then one whose
  statement is the \<open>SELECT\<close> statement; each reports one attempt and the node that
  answered it.
\<close>

theorem two_stats_without_retry:
  assumes "IncrementAndGet c name w = (Returns (cnt, None), w')"
    and "served w' = served w + 2"
  shows "\<exists>s1 s2. DBStats cnt = Some [s1, s2]
     \<and> Statement s1 = increment_cql \<and> Statement s2 = get_cql
     \<and> Attempts s1 = 1 \<and> Attempts s2 = 1
     \<and> QS_Host s1 = r_host (cluster w (served w))
     \<and> QS_Host s2 = r_host (cluster w (served w + 1))"
proof (cases rule: IncrementAndGet_cases [where w = w and c = c and name = name])
  case (inc_err w0 w1 e1)
  with assms show ?thesis by simp
next
  case (panics w0 w1 w2)
  with assms show ?thesis by simp
next
  case (get_err w0 w1 w2 v e1)
  with assms show ?thesis by simp
next
  case (ok w0 w1 w2 v)
  with assms have c: "DBStats cnt = stats (loggers w2 (next_logger w))" and w: "w' = w2" by auto
  note n = new_queryLogger_fields [OF ok(1)]
  let ?o = "next_logger w"
  from increment_as_run [OF ok(2)] obtain ri
    where ri: "run 5 (increment_query w0 name ?o) 1 w0 = (ri, w1)" by auto
  from get_as_run [OF ok(3)] obtain r
    where r: "run 5 (get_query w1 name ?o) 1 w1 = (r, w2)" by auto
  from run_served [OF ri] run_served [OF r] assms(2) w n
  have ss: "served w1 = Suc (served w) \<and> served w2 = Suc (served w1)" by simp
  then have s1: "served w1 = Suc (served w)" and s2: "served w2 = Suc (served w1)" by simp_all
  from run_frame [OF ri] n have f: "cluster w1 = cluster w" "sprintf_ms w1 = sprintf_ms w"
    by (simp_all add: same_session_def)
  from run_logger [OF ri increment_query_fields(4)] s1 n
  have l1: "stats (loggers w1 ?o) =
      Some [stat_of (sprintf_ms w) (increment_query w0 name ?o) 1 (cluster w (served w))]"
    by (simp add: slice_def)
  from run_logger [OF r get_query_fields(4)] s2 s1 l1 f
  have l2: "stats (loggers w2 ?o) =
      Some [stat_of (sprintf_ms w) (increment_query w0 name ?o) 1 (cluster w (served w)),
            stat_of (sprintf_ms w) (get_query w1 name ?o) 1 (cluster w (Suc (served w)))]"
    by (simp add: slice_def)
  show ?thesis
    unfolding c l2 by (simp add: stat_of_def increment_query_fields get_query_fields)
qed

text \<open>On the cluster that answers every attempt: two attempts, two entries.\<close>

theorem two_stats_without_retry_witness:
  "fst (IncrementAndGet example_db ''hits'' (example_world healthy_cluster)) =
     Returns (example_counter, None)
   \<and> served (snd (IncrementAndGet example_db ''hits'' (example_world healthy_cluster))) =
       served (example_world healthy_cluster) + 2
   \<and> (\<exists>s1 s2. DBStats example_counter = Some [s1, s2]
         \<and> Statement s1 = increment_cql \<and> Statement s2 = get_cql)"
proof -
  have s: "served (snd (IncrementAndGet example_db ''hits'' (example_world healthy_cluster))) =
      served (example_world healthy_cluster) + 2"
    using example_healthy_served by (simp add: example_world_fields)
  from two_stats_without_retry [OF example_healthy_whole s] example_healthy_call s
  show ?thesis by blast
qed





text \<open>
  Claim C8. \<open>createKeyspace\<close> and \<open>createTables\<close> send exactly the two statements of the
  spec: the text of the first is \<open>CREATE KEYSPACE IF NOT EXISTS\<close> for the keyspace
  \<open>caas\<close> with class \<open>SimpleStrategy\<close> and replication factor 3, the text of the second is
  \<open>CREATE TABLE IF NOT EXISTS\<close> for the table \<open>counter\<close> with a text column \<open>name\<close>, a
  counter column \<open>value\<close> and the primary key \<open>name\<close>; each function sends its statement
  and no other (once, when the session has no retry policy of its own; not at all when the
  bootstrap session cannot be opened). Under the meaning of \<open>IF NOT EXISTS\<close>, either
  statement, and the two in a row, succeed on any schema and change nothing when run
  again.
\<close>

theorem bootstrap_statements_idempotent:
  "map render bootstrap_ddl = [keyspace_cql, table_cql]
   \<and> (\<exists>k. issued (snd (createKeyspace ips w)) =
             issued w @ replicate k (Session_Query w keyspace_cql [])
          \<and> (if dial w ips = None then 0 < k \<and> k \<le> Suc (retries (default_rt w)) else k = 0))
   \<and> (\<exists>k. issued (snd (createTables w)) = issued w @ replicate k (Session_Query w table_cql [])
          \<and> 0 < k \<and> k \<le> Suc (retries (default_rt w)))
   \<and> (\<forall>d \<in> set bootstrap_ddl. \<forall>s. \<exists>s1. apply_ddl d s = Inr s1 \<and> apply_ddl d s1 = Inr s1)
   \<and> (\<forall>s. \<exists>s1. apply_all bootstrap_ddl s = Inr s1 \<and> apply_all bootstrap_ddl s1 = Inr s1)"
  using render_bootstrap createKeyspace_issued [of ips w] createTables_issued [of w]
    apply_ddl_idempotent apply_all_idempotent
  by blast

text \<open>On a session with no retry policy of its own, and from the empty schema.\<close>

theorem bootstrap_statements_idempotent_witness:
  "issued (snd (createKeyspace [''10.0.0.1''] (example_world healthy_cluster))) =
     [Session_Query (example_world healthy_cluster) keyspace_cql []]
   \<and> issued (snd (createTables (example_world healthy_cluster))) =
     [Session_Query (example_world healthy_cluster) table_cql []]
   \<and> apply_all bootstrap_ddl empty_schema = Inr caas_schema
   \<and> apply_all bootstrap_ddl caas_schema = Inr caas_schema"
proof -
  note t = bootstrap_statements_idempotent [of "[''10.0.0.1'']" "example_world healthy_cluster"]
  from t obtain k where
    "issued (snd (createKeyspace [''10.0.0.1''] (example_world healthy_cluster))) =
       issued (example_world healthy_cluster)
         @ replicate k (Session_Query (example_world healthy_cluster) keyspace_cql [])"
    and "if dial (example_world healthy_cluster) [''10.0.0.1''] = None
         then 0 < k \<and> k \<le> Suc (retries (default_rt (example_world healthy_cluster))) else k = 0"
    by blast
  moreover from this have "k = Suc 0" by (simp add: example_world_fields retries_def)
  ultimately have a: "issued (snd (createKeyspace [''10.0.0.1''] (example_world healthy_cluster))) =
     [Session_Query (example_world healthy_cluster) keyspace_cql []]"
    by (simp add: example_world_fields)
  from t obtain k where
    "issued (snd (createTables (example_world healthy_cluster))) =
       issued (example_world healthy_cluster)
         @ replicate k (Session_Query (example_world healthy_cluster) table_cql [])"
    and "0 < k \<and> k \<le> Suc (retries (default_rt (example_world healthy_cluster)))"
    by blast
  moreover from this have "k = Suc 0" by (simp add: example_world_fields retries_def)
  ultimately have b: "issued (snd (createTables (example_world healthy_cluster))) =
     [Session_Query (example_world healthy_cluster) table_cql []]"
    by (simp add: example_world_fields)
  have c: "apply_all bootstrap_ddl empty_schema = Inr caas_schema
     \<and> apply_all bootstrap_ddl caas_schema = Inr caas_schema"
    by (simp add: bootstrap_ddl_def empty_schema_def caas_schema_def)
  from a b c show ?thesis by simp
qed



text \<open>
  Claim C10. Whenever \<open>IncrementAndGet\<close> returns an error, from the increment or from the
  read-back, the counter it returns is the zero value: \<open>Value\<close> 0, \<open>Name\<close> and \<open>Host\<close>
  empty, \<open>DBStats\<close> nil. The observer of the call holds at least one entry by then, and
  none of it is returned.
\<close>

theorem error_returns_zero_counter:
  assumes "IncrementAndGet c name w = (Returns (cnt, Some e), w')"
  shows "cnt = Counter_zero \<and> Value cnt = 0 \<and> Name cnt = [] \<and> Host cnt = [] \<and> DBStats cnt = None
     \<and> (\<exists>ss. stats (loggers w' (next_logger w)) = Some ss \<and> ss \<noteq> [])"
proof (cases rule: IncrementAndGet_cases [where w = w and c = c and name = name])
  case (inc_err w0 w1 e1)
  note n = new_queryLogger_fields [OF inc_err(1)]
  from increment_as_run [OF inc_err(2)] obtain r
    where r: "run 5 (increment_query w0 name (next_logger w)) 1 w0 = (r, w1)" by auto
  from run_logger [OF r increment_query_fields(4)] run_served [OF r]
  have l: "\<exists>ss. stats (loggers w1 (next_logger w)) = Some ss \<and> ss \<noteq> []" by simp
  from assms inc_err(3) have "cnt = Counter_zero" "w' = w1" by simp_all
  with l show ?thesis by (simp add: Counter_zero_def)
next
  case (panics w0 w1 w2)
  with assms show ?thesis by simp
next
  case (get_err w0 w1 w2 v e1)
  from get_as_run [OF get_err(3)] obtain r
    where r: "run 5 (get_query w1 name (next_logger w)) 1 w1 = (r, w2)" by auto
  from run_logger [OF r get_query_fields(4)] run_served [OF r]
  have l: "\<exists>ss. stats (loggers w2 (next_logger w)) = Some ss \<and> ss \<noteq> []" by simp
  from assms get_err(4) have "cnt = Counter_zero" "w' = w2" by simp_all
  with l show ?thesis by (simp add: Counter_zero_def)
next
  case (ok w0 w1 w2 v)
  with assms show ?thesis by simp
qed

text \<open>On the cluster that answers every attempt with no rows: the read-back error.\<close>

theorem error_returns_zero_counter_witness:
  "fst (IncrementAndGet example_db ''hits'' (example_world lagging_cluster)) =
     Returns (Counter_zero, Some (Errorf ''error getting %q: %s'' ''hits'' ErrNotFound))
   \<and> DBStats Counter_zero = None
   \<and> (\<exists>ss. stats (loggers (snd (IncrementAndGet example_db ''hits''
                (example_world lagging_cluster))) 0) = Some ss \<and> ss \<noteq> [])"
proof -
  let ?w = "example_world lagging_cluster"
  have c: "IncrementAndGet example_db ''hits'' ?w =
      (Returns (Counter_zero, Some (Errorf ''error getting %q: %s'' ''hits'' ErrNotFound)),
       snd (IncrementAndGet example_db ''hits'' ?w))"
    using example_lagging_call by (simp add: prod_eq_iff)
  from error_returns_zero_counter [OF c] example_lagging_call show ?thesis
    by (simp add: example_world_fields)
qed

end
